theory Spec2Isabelle
  imports Complex_Main "HOL-Library.Word"
begin

unbundle bit_operations_syntax

section \<open>SCIP distance codec (LidarSystem.decodeSCIP)\<close>

text \<open>
  A JavaScript string is a sequence of UTF-16 code units; \<open>charCodeAt\<close> returns the
  code unit. A string is modelled as the list of its code units, \<open>str\<close> turns an
  ASCII literal into one.
\<close>

type_synonym jschar = nat
type_synonym jsstring = "jschar list"

definition str :: "string \<Rightarrow> jsstring" where
  "str s = map of_char s"

datatype js_error = TypeError | NotANumber | DataTooShort | TooFewStartMarkers

text \<open>\<open>Number.prototype.toString(2)\<close> on an integer.\<close>

fun toBinary :: "nat \<Rightarrow> jsstring" where
  "toBinary n = (if n < 2 then [48 + n] else toBinary (n div 2) @ [48 + n mod 2])"

declare toBinary.simps [simp del]

definition toString2 :: "int \<Rightarrow> jsstring" where
  "toString2 d = (if d < 0 then 45 # toBinary (nat (- d)) else toBinary (nat d))"

text \<open>\<open>String.prototype.padStart(targetLength, padChar)\<close> with a one-character pad.\<close>

definition padStart :: "nat \<Rightarrow> jschar \<Rightarrow> jsstring \<Rightarrow> jsstring" where
  "padStart targetLength padChar s =
     (if length s < targetLength then replicate (targetLength - length s) padChar @ s else s)"

text \<open>
  \<open>parseInt(s, 2)\<close>: an optional sign, then the longest run of binary digits; the
  result is \<open>NaN\<close> (\<open>None\<close>) when that run is empty. (Leading white space, which
  \<open>parseInt\<close> skips, does not occur in the strings built by \<open>decodeSCIP\<close>.)
\<close>

definition isBinaryDigit :: "jschar \<Rightarrow> bool" where
  "isBinaryDigit c = (c = 48 \<or> c = 49)"

fun binaryValue :: "nat \<Rightarrow> jsstring \<Rightarrow> nat" where
  "binaryValue acc [] = acc"
| "binaryValue acc (c # cs) = binaryValue (2 * acc + (c - 48)) cs"

definition parseInt2 :: "jsstring \<Rightarrow> int option" where
  "parseInt2 s =
     (let neg = (s \<noteq> [] \<and> hd s = 45);
          body = (if s \<noteq> [] \<and> (hd s = 45 \<or> hd s = 43) then tl s else s);
          digits = takeWhile isBinaryDigit body
      in if digits = [] then None
         else Some ((if neg then - 1 else 1) *
                    int (binaryValue 0 digits)))"

text \<open>\<open>((c.charCodeAt(0) - '!'.charCodeAt(0)) + 33) - 48\<close>.\<close>

definition digsub :: "jschar \<Rightarrow> int" where
  "digsub c = ((int c - 33) + 33) - 48"

definition digbin :: "jschar \<Rightarrow> jsstring" where
  "digbin c = padStart 6 48 (toString2 (digsub c))"

text \<open>\<open>rangeenc[k]\<close>: \<open>None\<close> is \<open>undefined\<close>.\<close>

definition elemAt :: "'a list \<Rightarrow> nat \<Rightarrow> 'a option" where
  "elemAt xs k = (if k < length xs then Some (xs ! k) else None)"

text \<open>
  \<open>decodeSCIP\<close>. Calling \<open>charCodeAt\<close> on a missing element throws a
  \<open>TypeError\<close>. A \<open>NaN\<close> out of \<open>parseInt\<close> is reported as \<open>NotANumber\<close>;
  lemma \<open>decodeSCIP_not_NaN\<close> shows that this never happens. The debug message
  printed with probability 1/100 does not change the result and is left out.
\<close>

definition fromParse :: "int option \<Rightarrow> js_error + int" where
  "fromParse r = (case r of None \<Rightarrow> Inl NotANumber | Some v \<Rightarrow> Inr v)"

definition decodeSCIP :: "jsstring \<Rightarrow> js_error + int" where
  "decodeSCIP rangeenc =
     (if elemAt rangeenc 0 = Some 48 \<and> elemAt rangeenc 1 = Some 48 \<and> elemAt rangeenc 2 = Some 48
      then Inr 0
      else if elemAt rangeenc 0 = Some 48
      then (case elemAt rangeenc 1 of None \<Rightarrow> Inl TypeError | Some c1 \<Rightarrow>
            (case elemAt rangeenc 2 of None \<Rightarrow> Inl TypeError | Some c2 \<Rightarrow>
               fromParse (parseInt2 (digbin c1 @ digbin c2))))
      else (case elemAt rangeenc 0 of None \<Rightarrow> Inl TypeError | Some c0 \<Rightarrow>
            (case elemAt rangeenc 1 of None \<Rightarrow> Inl TypeError | Some c1 \<Rightarrow>
            (case elemAt rangeenc 2 of None \<Rightarrow> Inl TypeError | Some c2 \<Rightarrow>
               fromParse (parseInt2 (digbin c0 @ digbin c1 @ digbin c2))))))"


section \<open>Scan frames (LidarSystem.processLidarData)\<close>

definition EXPECTED_DATA_SIZE :: nat where
  "EXPECTED_DATA_SIZE = 2134"

definition START_ANGLE :: real where
  "START_ANGLE = - 120"

definition END_ANGLE :: real where
  "END_ANGLE = 120"

definition TOTAL_POINTS :: nat where
  "TOTAL_POINTS = 682"

definition MAX_RANGE :: real where
  "MAX_RANGE = 5500"

definition MIN_RANGE :: real where
  "MIN_RANGE = 20"

text \<open>
  Numbers are JavaScript doubles. They are modelled by the reals: rounding, infinities
  and \<open>NaN\<close> are not represented, so every statement about coordinates, angles and
  fitted circles below is a statement about exact arithmetic.
\<close>

record xy =
  x :: real
  y :: real

record scanPoint = xy +
  angle :: real
  distance :: real

text \<open>
  \<open>String.prototype.substring(start, end)\<close> on non-negative integers: both bounds
  are clamped to the length and swapped when \<open>start > end\<close>.
\<close>

definition substring :: "jsstring \<Rightarrow> nat \<Rightarrow> nat \<Rightarrow> jsstring" where
  "substring s start end =
     (let a = min start (length s); b = min end (length s)
      in take (max a b - min a b) (drop (min a b) s))"

text \<open>\<open>findStartIndices\<close>: the indices \<open>i\<close> with \<open>data[i] === startChar\<close>, in order.\<close>

definition findStartIndices :: "jsstring \<Rightarrow> jschar \<Rightarrow> nat list" where
  "findStartIndices data startChar = filter (\<lambda>i. data ! i = startChar) [0..<length data]"

text \<open>
  \<open>reorganizeRangeData\<close>: for \<open>j = 0, ..., 31\<close>, the span
  \<open>substring(1 + 66 * j, 64 + 66 * j)\<close> is appended when
  \<open>64 + 66 * j <= rangedata.length\<close>.
\<close>

definition blockSpan :: "jsstring \<Rightarrow> nat \<Rightarrow> jsstring" where
  "blockSpan rangedata j =
     (let start = 1 + 66 * j; end = 64 + 66 * j
      in if end \<le> length rangedata then substring rangedata start end else [])"

definition reorganizeRangeData :: "jsstring \<Rightarrow> jsstring" where
  "reorganizeRangeData rangedata = concat (map (blockSpan rangedata) [0..<32])"

text \<open>\<open>encodeDistanceData\<close>: \<open>Math.floor(length / 3)\<close> groups of three characters.\<close>

definition encodeDistanceData :: "jsstring \<Rightarrow> jsstring list" where
  "encodeDistanceData onlyrangedata =
     map (\<lambda>i. [onlyrangedata ! (i * 3), onlyrangedata ! (i * 3 + 1), onlyrangedata ! (i * 3 + 2)])
         [0..<length onlyrangedata div 3]"

text \<open>\<open>decodeDistanceData\<close>: an exception of \<open>decodeSCIP\<close> ends the loop.\<close>

fun decodeDistanceData :: "jsstring list \<Rightarrow> js_error + int list" where
  "decodeDistanceData [] = Inr []"
| "decodeDistanceData (g # gs) =
     (case decodeSCIP g of
        Inl e \<Rightarrow> Inl e
      | Inr d \<Rightarrow> (case decodeDistanceData gs of Inl e \<Rightarrow> Inl e | Inr ds \<Rightarrow> Inr (d # ds)))"

text \<open>\<open>convertToCoordinates\<close>: one point per decoded range, in index order.\<close>

definition sampleAngle :: "nat \<Rightarrow> real" where
  "sampleAngle i = (START_ANGLE + (240 * real i) / real TOTAL_POINTS) * pi / 180"

definition toPoint :: "int list \<Rightarrow> nat \<Rightarrow> scanPoint" where
  "toPoint ranges i =
     \<lparr> x = real_of_int (ranges ! i) * cos (sampleAngle i),
       y = real_of_int (ranges ! i) * sin (sampleAngle i),
       angle = sampleAngle i,
       distance = real_of_int (ranges ! i) \<rparr>"

definition convertToCoordinates :: "int list \<Rightarrow> scanPoint list" where
  "convertToCoordinates ranges = map (toPoint ranges) [0..<length ranges]"

text \<open>
  \<open>processLidarData\<close>. The two \<open>throw new Error(...)\<close> are \<open>DataTooShort\<close> and
  \<open>TooFewStartMarkers\<close>; the \<open>catch\<close> block logs and throws the error again.
  Logging (\<open>logDistanceStats\<close> included) has no effect on the result.
\<close>

definition processLidarData :: "jsstring \<Rightarrow> js_error + scanPoint list" where
  "processLidarData rawData =
     (if length rawData < EXPECTED_DATA_SIZE then Inl DataTooShort
      else
        let data = substring rawData 0 EXPECTED_DATA_SIZE;
            startChar = data ! 12;
            startIndices = findStartIndices data startChar
        in if length startIndices < 3 then Inl TooFewStartMarkers
           else
             let rangedata = substring data (startIndices ! 2 + 1) (length data - 1);
                 onlyrangedata = reorganizeRangeData rangedata;
                 encodeddist = encodeDistanceData onlyrangedata
             in case decodeDistanceData encodeddist of
                  Inl e \<Rightarrow> Inl e
                | Inr ranges \<Rightarrow> Inr (convertToCoordinates ranges))"

section \<open>Clustering (LidarSystem.dbscan)\<close>

record detectionParams =
  eps :: real
  minPoints :: int
  minRadius :: real
  maxRadius :: real

text \<open>
  \<open>getNeighbors\<close>: the indices of the other points at Euclidean distance at most
  \<open>eps\<close>, in index order. It is only called with an index of the array.
\<close>

definition getNeighbors :: "detectionParams \<Rightarrow> 'a xy_scheme list \<Rightarrow> nat \<Rightarrow> nat list" where
  "getNeighbors params points index =
     filter (\<lambda>otherIndex. index \<noteq> otherIndex \<and>
               sqrt ((x (points ! index) - x (points ! otherIndex)) ^ 2 +
                     (y (points ! index) - y (points ! otherIndex)) ^ 2) \<le> eps params)
            [0..<length points]"

text \<open>
  \<open>expandCluster\<close>. The array \<open>neighbors\<close> grows while it is traversed with the
  index \<open>i\<close>. A cluster holds references to elements of \<open>points\<close>; a reference is
  modelled by the index of the element, so \<open>cluster.push(points[neighborIndex])\<close>
  appends \<open>neighborIndex\<close>. The function returns the two objects it mutates, the
  cluster and the set \<open>visited\<close>.
\<close>

function expandCluster ::
  "detectionParams \<Rightarrow> 'a xy_scheme list \<Rightarrow> nat list \<Rightarrow> nat \<Rightarrow> nat list \<Rightarrow> nat set \<Rightarrow> nat set
     \<Rightarrow> nat list \<times> nat set" where
  "expandCluster params points neighbors i cluster visited noise =
     (if i < length neighbors
      then if neighbors ! i \<notin> visited
           then expandCluster params points
                  (if minPoints params \<le> int (length (getNeighbors params points (neighbors ! i)))
                   then neighbors @ getNeighbors params points (neighbors ! i) else neighbors)
                  (i + 1)
                  (if neighbors ! i \<notin> noise then cluster @ [neighbors ! i] else cluster)
                  (insert (neighbors ! i) visited) noise
           else expandCluster params points neighbors (i + 1)
                  (if neighbors ! i \<notin> noise then cluster @ [neighbors ! i] else cluster)
                  visited noise
      else (cluster, visited))"
  by pat_completeness auto

termination
proof (relation "inv_image (less_than <*lex*> less_than)
    (\<lambda>(params, points, neighbors, i, cluster, visited, noise).
       (card (({..<length points} \<union> set neighbors) - visited), length neighbors - i))")
  show "wf (inv_image (less_than <*lex*> less_than)
    (\<lambda>(params, points :: 'a xy_scheme list, neighbors, i, cluster :: nat list, visited,
        noise :: nat set).
       (card (({..<length points} \<union> set neighbors) - visited), length neighbors - i)))"
    by (intro wf_inv_image wf_lex_prod wf_less_than)
next
  fix params :: detectionParams and points :: "'a xy_scheme list" and neighbors i
    and cluster :: "nat list" and visited noise :: "nat set"
  assume i: "i < length neighbors" and nv: "neighbors ! i \<notin> visited"
  let ?w = "neighbors ! i"
  let ?nb = "if minPoints params \<le> int (length (getNeighbors params points ?w))
             then neighbors @ getNeighbors params points ?w else neighbors"
  let ?U = "{..<length points} \<union> set neighbors"
  have "set (getNeighbors params points ?w) \<subseteq> {..<length points}"
    by (auto simp: getNeighbors_def)
  then have U: "{..<length points} \<union> set ?nb = ?U"
    by auto
  have w: "?w \<in> ?U - visited" using i nv by simp
  have "?U - insert ?w visited \<subset> ?U - visited" using w by blast
  then have "card (?U - insert ?w visited) < card (?U - visited)"
    by (intro psubset_card_mono) simp_all
  then show "((params, points, ?nb, i + 1,
         if ?w \<notin> noise then cluster @ [?w] else cluster, insert ?w visited, noise),
        params, points, neighbors, i, cluster, visited, noise)
       \<in> inv_image (less_than <*lex*> less_than)
           (\<lambda>(params, points, neighbors, i, cluster, visited, noise).
              (card (({..<length points} \<union> set neighbors) - visited), length neighbors - i))"
    by (simp add: U del: Un_insert_right)
next
  fix params :: detectionParams and points :: "'a xy_scheme list" and neighbors i
    and cluster :: "nat list" and visited noise :: "nat set"
  assume "i < length neighbors" and "\<not> neighbors ! i \<notin> visited"
  then show "((params, points, neighbors, i + 1,
         if neighbors ! i \<notin> noise then cluster @ [neighbors ! i] else cluster, visited, noise),
        params, points, neighbors, i, cluster, visited, noise)
       \<in> inv_image (less_than <*lex*> less_than)
           (\<lambda>(params, points, neighbors, i, cluster, visited, noise).
              (card (({..<length points} \<union> set neighbors) - visited), length neighbors - i))"
    by auto
qed

declare expandCluster.simps [simp del]

text \<open>
  \<open>dbscan\<close>: the body of \<open>points.forEach((point, index) => ...)\<close> acts on the
  three local objects \<open>clusters\<close>, \<open>visited\<close> and \<open>noise\<close>.
\<close>

definition dbscanStep ::
  "detectionParams \<Rightarrow> 'a xy_scheme list \<Rightarrow> nat \<Rightarrow> nat list list \<times> nat set \<times> nat set
     \<Rightarrow> nat list list \<times> nat set \<times> nat set" where
  "dbscanStep params points index state =
     (case state of (clusters, visited, noise) \<Rightarrow>
        if index \<in> visited then (clusters, visited, noise)
        else if int (length (getNeighbors params points index)) < minPoints params
        then (clusters, insert index visited, insert index noise)
        else (case expandCluster params points (getNeighbors params points index) 0 [index]
                     (insert index visited) noise of
                (cluster, visited') \<Rightarrow> (clusters @ [cluster], visited', noise)))"

definition dbscanState ::
  "detectionParams \<Rightarrow> 'a xy_scheme list \<Rightarrow> nat list list \<times> nat set \<times> nat set" where
  "dbscanState params points = fold (dbscanStep params points) [0..<length points] ([], {}, {})"

definition dbscan :: "detectionParams \<Rightarrow> 'a xy_scheme list \<Rightarrow> nat list list" where
  "dbscan params points = fst (dbscanState params points)"

text \<open>The points a cluster refers to.\<close>

definition members :: "'a list \<Rightarrow> nat list \<Rightarrow> 'a list" where
  "members points cluster = map (\<lambda>k. points ! k) cluster"

section \<open>Circle fit (LidarSystem.fitCircle)\<close>

record circle =
  center :: xy
  radius :: real

definition sumX :: "'a xy_scheme list \<Rightarrow> real" where
  "sumX points = (\<Sum>p\<leftarrow>points. x p)"

definition sumY :: "'a xy_scheme list \<Rightarrow> real" where
  "sumY points = (\<Sum>p\<leftarrow>points. y p)"

definition sumX2 :: "'a xy_scheme list \<Rightarrow> real" where
  "sumX2 points = (\<Sum>p\<leftarrow>points. x p * x p)"

definition sumY2 :: "'a xy_scheme list \<Rightarrow> real" where
  "sumY2 points = (\<Sum>p\<leftarrow>points. y p * y p)"

definition sumXY :: "'a xy_scheme list \<Rightarrow> real" where
  "sumXY points = (\<Sum>p\<leftarrow>points. x p * y p)"

definition sumX3 :: "'a xy_scheme list \<Rightarrow> real" where
  "sumX3 points = (\<Sum>p\<leftarrow>points. x p * x p * x p)"

definition sumY3 :: "'a xy_scheme list \<Rightarrow> real" where
  "sumY3 points = (\<Sum>p\<leftarrow>points. y p * y p * y p)"

definition sumXY2 :: "'a xy_scheme list \<Rightarrow> real" where
  "sumXY2 points = (\<Sum>p\<leftarrow>points. x p * y p * y p)"

definition sumX2Y :: "'a xy_scheme list \<Rightarrow> real" where
  "sumX2Y points = (\<Sum>p\<leftarrow>points. x p * x p * y p)"

definition coefA :: "'a xy_scheme list \<Rightarrow> real" where
  "coefA points = real (length points) * sumX2 points - sumX points * sumX points"

definition coefB :: "'a xy_scheme list \<Rightarrow> real" where
  "coefB points = real (length points) * sumXY points - sumX points * sumY points"

definition coefC :: "'a xy_scheme list \<Rightarrow> real" where
  "coefC points = real (length points) * sumY2 points - sumY points * sumY points"

definition coefD :: "'a xy_scheme list \<Rightarrow> real" where
  "coefD points =
     0.5 * (real (length points) * sumXY2 points - sumX points * sumY2 points
            + real (length points) * sumX3 points - sumX points * sumX2 points)"

definition coefE :: "'a xy_scheme list \<Rightarrow> real" where
  "coefE points =
     0.5 * (real (length points) * sumX2Y points - sumY points * sumX2 points
            + real (length points) * sumY3 points - sumY points * sumY2 points)"

definition det :: "'a xy_scheme list \<Rightarrow> real" where
  "det points = coefA points * coefC points - coefB points * coefB points"

definition centerX :: "'a xy_scheme list \<Rightarrow> real" where
  "centerX points = (coefD points * coefC points - coefB points * coefE points) / det points"

definition centerY :: "'a xy_scheme list \<Rightarrow> real" where
  "centerY points = (coefA points * coefE points - coefB points * coefD points) / det points"

text \<open>The mean distance of the points to the centre.\<close>

definition meanRadius :: "'a xy_scheme list \<Rightarrow> real" where
  "meanRadius points =
     (\<Sum>p\<leftarrow>points. sqrt ((x p - centerX points) * (x p - centerX points) +
                         (y p - centerY points) * (y p - centerY points)))
     / real (length points)"

text \<open>\<open>fitCircle\<close>: \<open>None\<close> is the \<open>null\<close> of the two early returns.\<close>

definition fitCircle :: "'a xy_scheme list \<Rightarrow> circle option" where
  "fitCircle points =
     (if length points < 3 then None
      else if \<bar>det points\<bar> < 1 / 10 ^ 10 then None
      else Some \<lparr> center = \<lparr> x = centerX points, y = centerY points \<rparr>,
                  radius = meanRadius points \<rparr>)"

section \<open>Detection (LidarSystem.detectTrees)\<close>

record tree = circle +
  diameter :: real
  points :: "scanPoint list"

record scanParams =
  startAngle :: real
  endAngle :: real
  numPoints :: nat
  maxRange :: real
  minRange :: real

text \<open>The fields of \<open>LidarSystem\<close> that \<open>detectTrees\<close> reads or writes.\<close>

record lidarSystem =
  scanData :: "scanPoint list"
  trees :: "tree list"
  scanParams :: scanParams
  detectionParams :: detectionParams

text \<open>
  The body of \<open>clusters.forEach\<close>: what one cluster adds to \<open>this.trees\<close>.
\<close>

definition fitCluster :: "detectionParams \<Rightarrow> scanPoint list \<Rightarrow> tree list" where
  "fitCluster params cluster =
     (if minPoints params \<le> int (length cluster)
      then (case fitCircle cluster of
              None \<Rightarrow> []
            | Some circle \<Rightarrow>
                if minRadius params \<le> radius circle \<and> radius circle \<le> maxRadius params
                then [\<lparr> center = center circle, radius = radius circle,
                        diameter = radius circle * 2, points = cluster \<rparr>]
                else [])
      else [])"

definition validPoints :: "lidarSystem \<Rightarrow> scanPoint list" where
  "validPoints s =
     filter (\<lambda>point. minRange (scanParams s) < distance point \<and>
                      distance point < maxRange (scanParams s))
            (scanData s)"

text \<open>
  \<open>detectTrees\<close> returns nothing and acts on \<open>this.trees\<close>; the model returns the
  system after the call. The two early \<open>return\<close> statements leave it as it was. The
  updates of the page (\<open>updateTreeList\<close>, \<open>updateVisualization\<close>,
  \<open>updateStats\<close>) and the log are not part of the model.
\<close>

definition detectTrees :: "lidarSystem \<Rightarrow> lidarSystem" where
  "detectTrees s =
     (if scanData s = [] then s
      else if int (length (validPoints s)) < minPoints (detectionParams s) then s
      else s \<lparr> trees :=
                 concat (map (\<lambda>cluster. fitCluster (detectionParams s)
                                             (members (validPoints s) cluster))
                             (dbscan (detectionParams s) (validPoints s))) \<rparr>)"

section \<open>STP-23L height packets (class STP23LSensor)\<close>

text \<open>
  \<open>parseData\<close> receives a \<open>Uint8Array\<close>; it is a list of bytes here. The bitwise
  operators of JavaScript work on 32-bit two's complement integers, so every field is
  assembled in a \<open>32 word\<close> and read back with \<open>sint\<close>.
\<close>

type_synonym byte = "8 word"

record measurement =
  distance :: int
  noise :: int
  peak :: int
  confidence :: int
  intg :: int
  reftof :: int

definition START_BYTE :: byte where
  "START_BYTE = 0xAA"

definition DATA_START_INDEX :: nat where
  "DATA_START_INDEX = 10"

definition DATA_INTERVAL :: nat where
  "DATA_INTERVAL = 15"

text \<open>The table \<open>STP23L_CONSTANTS.DATA_FIELDS\<close>.\<close>

definition DISTANCE_LOW :: nat where "DISTANCE_LOW = 0"
definition DISTANCE_HIGH :: nat where "DISTANCE_HIGH = 1"
definition NOISE_LOW :: nat where "NOISE_LOW = 2"
definition NOISE_HIGH :: nat where "NOISE_HIGH = 3"
definition PEAK_1 :: nat where "PEAK_1 = 4"
definition PEAK_2 :: nat where "PEAK_2 = 5"
definition PEAK_3 :: nat where "PEAK_3 = 6"
definition PEAK_4 :: nat where "PEAK_4 = 7"
definition CONFIDENCE :: nat where "CONFIDENCE = 8"
definition INTG_1 :: nat where "INTG_1 = 9"
definition INTG_2 :: nat where "INTG_2 = 10"
definition INTG_3 :: nat where "INTG_3 = 11"
definition INTG_4 :: nat where "INTG_4 = 12"
definition REFTOF_LOW :: nat where "REFTOF_LOW = 13"
definition REFTOF_HIGH :: nat where "REFTOF_HIGH = 14"

lemmas DATA_FIELDS_defs =
  DISTANCE_LOW_def DISTANCE_HIGH_def NOISE_LOW_def NOISE_HIGH_def
  PEAK_1_def PEAK_2_def PEAK_3_def PEAK_4_def CONFIDENCE_def
  INTG_1_def INTG_2_def INTG_3_def INTG_4_def REFTOF_LOW_def REFTOF_HIGH_def

text \<open>\<open>(high << 8) | low\<close> on two bytes.\<close>

definition pack2 :: "byte \<Rightarrow> byte \<Rightarrow> int" where
  "pack2 high low = sint (push_bit 8 (ucast high :: 32 word) OR ucast low)"

text \<open>\<open>(b1 << 24) | (b2 << 16) | (b3 << 8) | b4\<close> on four bytes.\<close>

definition pack4 :: "byte \<Rightarrow> byte \<Rightarrow> byte \<Rightarrow> byte \<Rightarrow> int" where
  "pack4 b1 b2 b3 b4 =
     sint (push_bit 24 (ucast b1 :: 32 word) OR push_bit 16 (ucast b2)
           OR push_bit 8 (ucast b3) OR ucast b4)"

text \<open>
  The body of the loop of \<open>parseData\<close> for the record that starts at byte \<open>i\<close>. It
  is only run when \<open>i + DATA_INTERVAL < data.length\<close>, so every index is in range.
\<close>

definition decodeRecord :: "byte list \<Rightarrow> nat \<Rightarrow> measurement" where
  "decodeRecord data i =
     \<lparr> distance = pack2 (data ! (i + DISTANCE_HIGH)) (data ! (i + DISTANCE_LOW)),
       noise = pack2 (data ! (i + NOISE_HIGH)) (data ! (i + NOISE_LOW)),
       peak = pack4 (data ! (i + PEAK_1)) (data ! (i + PEAK_2))
                    (data ! (i + PEAK_3)) (data ! (i + PEAK_4)),
       confidence = uint (data ! (i + CONFIDENCE)),
       intg = pack4 (data ! (i + INTG_1)) (data ! (i + INTG_2))
                    (data ! (i + INTG_3)) (data ! (i + INTG_4)),
       reftof = pack2 (data ! (i + REFTOF_HIGH)) (data ! (i + REFTOF_LOW)) \<rparr>"

text \<open>
  \<open>for (let i = DATA_START_INDEX; i < data.length; i += DATA_INTERVAL)\<close> with the
  list of measurements pushed so far.
\<close>

function parseLoop :: "byte list \<Rightarrow> nat \<Rightarrow> measurement list \<Rightarrow> measurement list" where
  "parseLoop data i measurements =
     (if i < length data
      then parseLoop data (i + DATA_INTERVAL)
             (if i + DATA_INTERVAL < length data
              then measurements @ [decodeRecord data i] else measurements)
      else measurements)"
  by pat_completeness auto
termination
  by (relation "measure (\<lambda>(data, i, measurements). length data - i)")
     (auto simp: DATA_INTERVAL_def)

declare parseLoop.simps [simp del]

text \<open>
  \<open>parseData\<close>: \<open>None\<close> is the \<open>null\<close> returned for a wrong start byte
  (\<open>data[0]\<close> of an empty array is \<open>undefined\<close>, which differs from the start byte
  too). Nothing inside the \<open>try\<close> block can throw on a byte array.
\<close>

definition parseData :: "byte list \<Rightarrow> measurement list option" where
  "parseData data =
     (if data = [] \<or> data ! 0 \<noteq> START_BYTE then None
      else Some (parseLoop data DATA_START_INDEX []))"


section \<open>Sample inputs\<close>

text \<open>
  A 195-byte packet with the start byte \<open>0xAA\<close>, \<open>packet[10] = 0x00\<close>,
  \<open>packet[11] = 0x64\<close> and zeros elsewhere.
\<close>

definition packet100 :: "byte list" where
  "packet100 = 0xAA # replicate 9 0 @ [0x00, 0x64] @ replicate 183 0"

text \<open>
  A scan response as the sensor sends it, 2134 characters: the echo of the command, the
  status and the time stamp, each closed by a line feed (code unit 10); then 31 lines of
  64 data characters, a check character and a line feed; a last line of 62 data
  characters, a check character and a line feed; and a final line feed. That is
  \<open>31 * 64 + 62 = 2046\<close> data characters, three for each of 682 distances.
\<close>

definition sampleHeader :: jsstring where
  "sampleHeader = str ''GD0044072500'' @ [10] @ str ''00P'' @ [10] @ str ''0000S'' @ [10]"

definition sampleBody :: jsstring where
  "sampleBody =
     concat (replicate 31 (replicate 64 49 @ [83, 10])) @ replicate 62 49 @ [83, 10] @ [10]"

definition sampleFrame :: jsstring where
  "sampleFrame = sampleHeader @ sampleBody"

section \<open>Properties of the distance codec\<close>

subsection \<open>Binary strings\<close>

lemma binaryValue_shift:
  "binaryValue a ds = a * 2 ^ length ds + binaryValue 0 ds"
proof (induction ds arbitrary: a)
  case Nil
  show ?case by simp
next
  case (Cons d ds)
  show ?case
    using Cons.IH [of "2 * a + (d - 48)"] Cons.IH [of "d - 48"]
    by (simp add: algebra_simps)
qed

lemma binaryValue_append:
  "binaryValue a (xs @ ys) = binaryValue a xs * 2 ^ length ys + binaryValue 0 ys"
proof (induction xs arbitrary: a)
  case Nil
  show ?case using binaryValue_shift [of a ys] by simp
next
  case (Cons x xs)
  show ?case by (simp add: Cons.IH)
qed

lemma binaryValue_replicate_zero [simp]: "binaryValue 0 (replicate k 48) = 0"
  by (induction k) simp_all

lemma toBinary_isBinaryDigit: "\<forall>c \<in> set (toBinary n). isBinaryDigit c"
proof (induction n rule: toBinary.induct)
  case (1 n)
  show ?case
  proof (cases "n < 2")
    case True
    then have "n = 0 \<or> n = 1" by arith
    then show ?thesis by (auto simp: toBinary.simps [of n] isBinaryDigit_def)
  next
    case False
    have "n mod 2 = 0 \<or> n mod 2 = 1" by arith
    with False 1 show ?thesis by (auto simp: toBinary.simps [of n] isBinaryDigit_def)
  qed
qed

lemma toBinary_nonempty: "toBinary n \<noteq> []"
  by (simp add: toBinary.simps [of n])

lemma binaryValue_toBinary: "binaryValue 0 (toBinary n) = n"
proof (induction n rule: toBinary.induct)
  case (1 n)
  show ?case
  proof (cases "n < 2")
    case True
    then show ?thesis by (simp add: toBinary.simps [of n])
  next
    case False
    with 1 have "binaryValue 0 (toBinary (n div 2)) = n div 2" by simp
    with False show ?thesis
      by (simp add: toBinary.simps [of n] binaryValue_append)
  qed
qed

lemma length_toBinary_le: "n < 2 ^ k \<Longrightarrow> 0 < k \<Longrightarrow> length (toBinary n) \<le> k"
proof (induction n arbitrary: k rule: toBinary.induct)
  case (1 n)
  show ?case
  proof (cases "n < 2")
    case True
    with 1(3) show ?thesis by (simp add: toBinary.simps [of n])
  next
    case False
    from 1(3) obtain j where k: "k = Suc j"
      by (cases k) auto
    have j: "0 < j"
    proof (rule ccontr)
      assume "\<not> 0 < j"
      with k 1(2) have "n < 2" by simp
      with False show False by simp
    qed
    from 1(2) k have "n div 2 < 2 ^ j" by auto
    with 1(1) [OF False this j] False k show ?thesis
      by (simp add: toBinary.simps [of n])
  qed
qed


lemma toBinary_Cons: "\<exists>b bs. toBinary n = b # bs \<and> isBinaryDigit b"
  using toBinary_nonempty [of n] toBinary_isBinaryDigit [of n] by (cases "toBinary n") auto

lemma parseInt2_binary_head:
  "isBinaryDigit b \<Longrightarrow> parseInt2 (b # bs) \<noteq> None"
  by (auto simp: parseInt2_def Let_def) (auto simp: isBinaryDigit_def)

lemma parseInt2_signed_head:
  "isBinaryDigit b \<Longrightarrow> parseInt2 (45 # b # bs) \<noteq> None"
  by (simp add: parseInt2_def Let_def)

lemma parseInt2_all_binary:
  assumes "s \<noteq> []" and "\<forall>c \<in> set s. isBinaryDigit c"
  shows "parseInt2 s = Some (int (binaryValue 0 s))"
proof -
  from assms obtain b bs where s: "s = b # bs" and b: "isBinaryDigit b"
    by (cases s) auto
  from assms(2) have tw: "takeWhile isBinaryDigit s = s"
    by (simp add: takeWhile_eq_all_conv)
  from s b have sign: "hd s \<noteq> 45" "hd s \<noteq> 43"
    by (auto simp: isBinaryDigit_def)
  from assms(1) sign show ?thesis
    by (simp add: parseInt2_def Let_def tw)
qed

lemma digbin_not_NaN: "parseInt2 (digbin c @ rest) \<noteq> None"
proof -
  obtain b bs where tb: "toBinary (nat \<bar>digsub c\<bar>) = b # bs" and b: "isBinaryDigit b"
    using toBinary_Cons by blast
  show ?thesis
  proof (cases "digsub c < 0")
    case True
    then have ts: "toString2 (digsub c) = 45 # b # bs"
      using tb by (simp add: toString2_def abs_if)
    show ?thesis
    proof (cases "length (toString2 (digsub c)) < 6")
      case True
      then obtain k where "6 - length (toString2 (digsub c)) = Suc k"
        by (cases "6 - length (toString2 (digsub c))") auto
      with True have "digbin c @ rest = 48 # (replicate k 48 @ toString2 (digsub c) @ rest)"
        by (simp add: digbin_def padStart_def)
      then show ?thesis
        using parseInt2_binary_head [of 48] by (simp add: isBinaryDigit_def)
    next
      case False
      with ts have "digbin c @ rest = 45 # b # (bs @ rest)"
        by (simp add: digbin_def padStart_def)
      with b show ?thesis
        using parseInt2_signed_head [of b "bs @ rest"] by simp
    qed
  next
    case False
    then have ts: "toString2 (digsub c) = b # bs"
      using tb by (simp add: toString2_def abs_if)
    show ?thesis
    proof (cases "length (toString2 (digsub c)) < 6")
      case True
      then obtain k where "6 - length (toString2 (digsub c)) = Suc k"
        by (cases "6 - length (toString2 (digsub c))") auto
      with True have "digbin c @ rest = 48 # (replicate k 48 @ toString2 (digsub c) @ rest)"
        by (simp add: digbin_def padStart_def)
      then show ?thesis
        using parseInt2_binary_head [of 48] by (simp add: isBinaryDigit_def)
    next
      case False
      with ts have "digbin c @ rest = b # (bs @ rest)"
        by (simp add: digbin_def padStart_def)
      with b show ?thesis
        using parseInt2_binary_head [of b "bs @ rest"] by simp
    qed
  qed
qed

lemma fromParse_digbin: "\<exists>v. fromParse (parseInt2 (digbin c @ rest)) = Inr v"
  using digbin_not_NaN [of c rest] by (auto simp: fromParse_def split: option.splits)

lemma decodeSCIP_not_NaN: "decodeSCIP rangeenc \<noteq> Inl NotANumber"
proof -
  have "fromParse (parseInt2 (digbin c @ rest)) \<noteq> Inl NotANumber" for c rest
    using fromParse_digbin [of c rest] by auto
  then show ?thesis
    by (simp add: decodeSCIP_def split: option.splits)
qed

lemma digbin_valid:
  assumes "0 \<le> digsub c" and "digsub c \<le> 63"
  shows "length (digbin c) = 6" and "\<forall>x \<in> set (digbin c). isBinaryDigit x"
    and "binaryValue 0 (digbin c) = nat (digsub c)"
proof -
  let ?n = "nat (digsub c)"
  from assms have ts: "toString2 (digsub c) = toBinary ?n"
    by (simp add: toString2_def)
  from assms have "?n < 2 ^ 6" by simp
  then have len: "length (toBinary ?n) \<le> 6"
    by (rule length_toBinary_le) simp
  have db: "digbin c = replicate (6 - length (toBinary ?n)) 48 @ toBinary ?n"
    using len by (auto simp: digbin_def padStart_def ts)
  show "length (digbin c) = 6" using len by (simp add: db)
  show "\<forall>x \<in> set (digbin c). isBinaryDigit x"
    using toBinary_isBinaryDigit [of ?n] by (auto simp: db isBinaryDigit_def)
  show "binaryValue 0 (digbin c) = ?n"
    by (simp add: db binaryValue_append binaryValue_toBinary)
qed

lemma parse_two_digits:
  assumes "0 \<le> digsub c1" "digsub c1 \<le> 63" "0 \<le> digsub c2" "digsub c2 \<le> 63"
  shows "parseInt2 (digbin c1 @ digbin c2) = Some (64 * digsub c1 + digsub c2)"
proof -
  note v1 = digbin_valid [OF assms(1,2)] and v2 = digbin_valid [OF assms(3,4)]
  have ne: "digbin c1 @ digbin c2 \<noteq> []" using v1(1) by auto
  have bin: "\<forall>c \<in> set (digbin c1 @ digbin c2). isBinaryDigit c" using v1(2) v2(2) by auto
  show ?thesis
    using assms by (simp add: parseInt2_all_binary [OF ne bin] binaryValue_append v1 v2)
qed

lemma parse_three_digits:
  assumes "0 \<le> digsub c0" "digsub c0 \<le> 63" "0 \<le> digsub c1" "digsub c1 \<le> 63"
    "0 \<le> digsub c2" "digsub c2 \<le> 63"
  shows "parseInt2 (digbin c0 @ digbin c1 @ digbin c2) =
         Some (4096 * digsub c0 + 64 * digsub c1 + digsub c2)"
proof -
  note v0 = digbin_valid [OF assms(1,2)] and v1 = digbin_valid [OF assms(3,4)]
    and v2 = digbin_valid [OF assms(5,6)]
  have ne: "digbin c0 @ digbin c1 @ digbin c2 \<noteq> []" using v0(1) by auto
  have bin: "\<forall>c \<in> set (digbin c0 @ digbin c1 @ digbin c2). isBinaryDigit c"
    using v0(2) v1(2) v2(2) by auto
  show ?thesis
    using assms
    by (simp add: parseInt2_all_binary [OF ne bin] binaryValue_append v0 v1 v2)
qed

subsection \<open>The decoded value\<close>

text \<open>
  Claim C7. For characters whose digits (code unit minus 48) all lie in \<open>[0, 63]\<close>,
  \<open>decodeSCIP\<close> returns the digits read as a base-64 number: a group that starts
  with the character \<open>0\<close> (the two-character encoding) gives \<open>64 * d1 + d2\<close>, a
  value in \<open>[0, 4095]\<close>; a three-character group gives
  \<open>4096 * d0 + 64 * d1 + d2\<close>, a value in \<open>[0, 262143]\<close>; and the group
  \<open>000\<close> gives exactly \<open>0\<close>.
\<close>

theorem decodeSCIP_valid_range:
  assumes "0 \<le> digsub c0" "digsub c0 \<le> 63" "0 \<le> digsub c1" "digsub c1 \<le> 63"
    "0 \<le> digsub c2" "digsub c2 \<le> 63"
  shows "decodeSCIP [48, c1, c2] = Inr (64 * digsub c1 + digsub c2)
           \<and> 0 \<le> 64 * digsub c1 + digsub c2 \<and> 64 * digsub c1 + digsub c2 \<le> 4095
         \<and> decodeSCIP [c0, c1, c2] = Inr (4096 * digsub c0 + 64 * digsub c1 + digsub c2)
           \<and> 0 \<le> 4096 * digsub c0 + 64 * digsub c1 + digsub c2
           \<and> 4096 * digsub c0 + 64 * digsub c1 + digsub c2 \<le> 262143
         \<and> decodeSCIP (str ''000'') = Inr 0"
proof -
  have two: "decodeSCIP [48, c1, c2] = Inr (64 * digsub c1 + digsub c2)"
  proof (cases "c1 = 48 \<and> c2 = 48")
    case True
    then show ?thesis by (simp add: decodeSCIP_def elemAt_def digsub_def)
  next
    case False
    then show ?thesis
      using parse_two_digits [OF assms(3-6)]
      by (auto simp: decodeSCIP_def elemAt_def fromParse_def)
  qed
  have three: "decodeSCIP [c0, c1, c2] = Inr (4096 * digsub c0 + 64 * digsub c1 + digsub c2)"
  proof (cases "c0 = 48")
    case True
    with two show ?thesis by (simp add: digsub_def)
  next
    case False
    then show ?thesis
      using parse_three_digits [OF assms]
      by (simp add: decodeSCIP_def elemAt_def fromParse_def)
  qed
  have zero: "decodeSCIP (str ''000'') = Inr 0"
    by (simp add: decodeSCIP_def elemAt_def str_def)
  from two three zero assms show ?thesis by simp
qed

theorem decodeSCIP_valid_range_witness:
  "decodeSCIP (str ''0oo'') = Inr 4095 \<and> decodeSCIP (str ''ooo'') = Inr 262143
   \<and> decodeSCIP (str ''1Dh'') = Inr 5432"
  using decodeSCIP_valid_range [of 111 111 111] decodeSCIP_valid_range [of 49 68 104]
  by (simp add: digsub_def str_def)

text \<open>
  Claim C5, as stated, asks for a format error when a digit is outside \<open>[0, 63]\<close>.
  The character \<open>p\<close> has digit 64, and the group \<open>0p0\<close> is decoded to 4096.
\<close>

theorem decodeSCIP_digit_out_of_range_counterexample:
  "digsub (of_char CHR ''p'') = 64 \<and> decodeSCIP (str ''0p0'') = Inr 4096"
  by code_simp

text \<open>
  Claim C5, amended. \<open>decodeSCIP\<close> does not check digits and has no format error:
  on every group of three characters, whatever their digits, it returns an integer.
\<close>

theorem decodeSCIP_returns_integer:
  "length rangeenc = 3 \<Longrightarrow> \<exists>v. decodeSCIP rangeenc = Inr v"
  using fromParse_digbin by (simp add: decodeSCIP_def elemAt_def)

theorem decodeSCIP_returns_integer_witness:
  "length (str ''0 5'') = 3 \<and> (\<exists>v. decodeSCIP (str ''0 5'') = Inr v)"
  using decodeSCIP_returns_integer [of "str ''0 5''"] by (simp add: str_def)

section \<open>Properties of the height packet decoder\<close>

lemma byte_bound: "uint (b :: byte) < 256"
  using uint_lt2p [of b] by simp

lemma pack2_word:
  "push_bit 8 (ucast (high :: byte) :: 32 word) OR ucast (low :: byte)
     = word_of_int (256 * uint high + uint low)"
proof -
  have "push_bit 8 (ucast high :: 32 word) + ucast low = push_bit 8 (ucast high) OR ucast low"
  proof (rule disjunctive_add)
    fix n
    show "\<not> bit (push_bit 8 (ucast high :: 32 word)) n \<or> \<not> bit (ucast low :: 32 word) n"
      by (auto simp: bit_simps dest: bit_imp_le_length)
  qed
  moreover have "push_bit 8 (word_of_int (uint high) :: 32 word) = word_of_int (256 * uint high)"
    by (simp add: push_bit_eq_mult)
  ultimately show ?thesis
    by (simp only: ucast_eq wi_hom_add)
qed

lemma pack2_value: "pack2 high low = 256 * uint high + uint low"
proof -
  have nn: "0 \<le> 256 * uint high + uint low"
    by simp
  have lo: "- (2 ^ 31) \<le> 256 * uint high + uint low"
    by (rule order_trans [OF _ nn]) simp
  have hi: "256 * uint high + uint low < 2 ^ 31"
    using byte_bound [of high] byte_bound [of low] by simp
  have stb: "signed_take_bit 31 (256 * uint high + uint low) = 256 * uint high + uint low"
    using lo hi by (rule signed_take_bit_int_eq_self)
  have "pack2 high low = sint (word_of_int (256 * uint high + uint low) :: 32 word)"
    by (simp only: pack2_def pack2_word)
  also have "\<dots> = signed_take_bit (LENGTH(32) - 1) (256 * uint high + uint low)"
    by (rule sint_sbintrunc')
  also have "\<dots> = 256 * uint high + uint low"
    using stb by simp
  finally show ?thesis .
qed

lemma parseLoop_eq:
  "parseLoop data i measurements =
     measurements @ map (\<lambda>k. decodeRecord data (i + 15 * k)) [0..<(length data - i - 1) div 15]"
proof (induction data i measurements rule: parseLoop.induct)
  case (1 data i measurements)
  let ?n = "(length data - i - 1) div 15"
  show ?case
  proof (cases "i + DATA_INTERVAL < length data")
    case True
    then have i: "i < length data" by (simp add: DATA_INTERVAL_def)
    from True have n: "?n = Suc ((length data - (i + 15) - 1) div 15)"
      by (simp add: DATA_INTERVAL_def)
    have "parseLoop data i measurements =
            parseLoop data (i + DATA_INTERVAL) (measurements @ [decodeRecord data i])"
      using True i by (subst parseLoop.simps) simp
    also have "\<dots> = (measurements @ [decodeRecord data i]) @
        map (\<lambda>k. decodeRecord data (i + 15 + 15 * k)) [0..<(length data - (i + 15) - 1) div 15]"
      using 1 [OF i] True by (simp add: DATA_INTERVAL_def)
    also have "\<dots> = measurements @ map (\<lambda>k. decodeRecord data (i + 15 * k)) [0..<?n]"
      unfolding n by (simp add: map_upt_Suc add.assoc del: upt_Suc)
    finally show ?thesis .
  next
    case False
    then have n: "?n = 0" by (simp add: DATA_INTERVAL_def)
    show ?thesis
    proof (cases "i < length data")
      case True
      have "parseLoop data i measurements = parseLoop data (i + DATA_INTERVAL) measurements"
        using True False by (subst parseLoop.simps) simp
      also have "\<dots> = measurements"
        using 1 [OF True] False by (simp add: DATA_INTERVAL_def)
      finally show ?thesis using n by simp
    next
      case False
      then show ?thesis using n by (subst parseLoop.simps) simp
    qed
  qed
qed

lemma distance_decodeRecord:
  "measurement.distance (decodeRecord data i) = 256 * uint (data ! (i + 1)) + uint (data ! i)"
  by (simp add: decodeRecord_def pack2_value DISTANCE_HIGH_def DISTANCE_LOW_def)

text \<open>
  Claim C2, as stated, asks for a big-endian distance: 100 for the bytes \<open>0x00\<close>,
  \<open>0x64\<close> at offsets 10 and 11. The decoder takes the high byte from offset
  \<open>DISTANCE_HIGH = 1\<close> of the record, and returns 25600.
\<close>

theorem parseData_big_endian_counterexample:
  "length packet100 = 195 \<and> packet100 ! 0 = 0xAA \<and> packet100 ! 10 = 0x00 \<and> packet100 ! 11 = 0x64 \<and>
   map_option (\<lambda>ms. measurement.distance (ms ! 0)) (parseData packet100) = Some 25600 \<and>
   map_option (\<lambda>ms. measurement.distance (ms ! 0)) (parseData packet100) \<noteq> Some 100"
  by code_simp

text \<open>
  Claim C2, amended. For a packet that starts with \<open>0xAA\<close>, \<open>parseData\<close>
  returns one measurement for every record offset \<open>10 + 15 * k\<close> with
  \<open>10 + 15 * k + 15 < length\<close>, and its distance is the little-endian value of the
  first two bytes of the record: \<open>256 * data[offset + 1] + data[offset]\<close>.
\<close>

theorem parseData_distance_little_endian:
  assumes "data \<noteq> []" and "data ! 0 = 0xAA"
  shows "\<exists>ms. parseData data = Some ms \<and>
           (\<forall>k. 10 + 15 * k + 15 < length data \<longrightarrow>
              k < length ms \<and>
              measurement.distance (ms ! k) =
                256 * uint (data ! (10 + 15 * k + 1)) + uint (data ! (10 + 15 * k)))"
proof -
  let ?ms = "map (\<lambda>k. decodeRecord data (10 + 15 * k)) [0..<(length data - 10 - 1) div 15]"
  have pd: "parseData data = Some ?ms"
    using assms by (simp add: parseData_def START_BYTE_def DATA_START_INDEX_def parseLoop_eq)
  have "k < length ?ms \<and> measurement.distance (?ms ! k) =
          256 * uint (data ! (10 + 15 * k + 1)) + uint (data ! (10 + 15 * k))"
    if "10 + 15 * k + 15 < length data" for k
  proof -
    from that have k: "k < (length data - 10 - 1) div 15" by presburger
    then show ?thesis by (simp add: distance_decodeRecord)
  qed
  with pd show ?thesis by blast
qed

theorem parseData_distance_little_endian_witness:
  "length packet100 = 195 \<and> packet100 ! 0 = 0xAA \<and> packet100 ! 10 = 0x00 \<and> packet100 ! 11 = 0x64 \<and>
   (\<exists>ms. parseData packet100 = Some ms \<and> ms \<noteq> [] \<and> measurement.distance (ms ! 0) = 25600)"
proof -
  have ne: "packet100 \<noteq> []" and st: "packet100 ! 0 = 0xAA"
    by (simp_all add: packet100_def)
  have len: "length packet100 = 195" by (simp add: packet100_def)
  have b10: "packet100 ! 10 = 0" and b11: "packet100 ! 11 = 0x64"
    by (simp_all add: packet100_def nth_append nth_Cons')
  from parseData_distance_little_endian [OF ne st] obtain ms
    where ms: "parseData packet100 = Some ms"
      and all: "\<forall>k. 10 + 15 * k + 15 < length packet100 \<longrightarrow> k < length ms \<and>
              measurement.distance (ms ! k) =
                256 * uint (packet100 ! (10 + 15 * k + 1)) + uint (packet100 ! (10 + 15 * k))"
    by blast
  from all [rule_format, of 0] len b10 b11
  have "0 < length ms \<and> measurement.distance (ms ! 0) = 25600" by simp
  with ms len st b10 b11 show ?thesis by auto
qed

section \<open>Properties of the scan frame decoder\<close>

lemma length_substring:
  "length (substring s start end) =
     max (min start (length s)) (min end (length s)) - min (min start (length s)) (min end (length s))"
  by (auto simp: substring_def Let_def min_def max_def)

lemma substring_whole: "length s = n \<Longrightarrow> substring s 0 n = s"
  by (simp add: substring_def)

lemma substring_prefix: "n \<le> length s \<Longrightarrow> substring s 0 n = take n s"
  by (simp add: substring_def)

lemma length_blockSpan:
  "length (blockSpan rangedata j) = (if 64 + 66 * j \<le> length rangedata then 63 else 0)"
  by (simp add: blockSpan_def Let_def length_substring)

lemma sum_list_const_bound:
  "(\<And>j. j \<in> set js \<Longrightarrow> f j \<le> (c::nat)) \<Longrightarrow> sum_list (map f js) \<le> c * length js"
  by (induction js) (auto simp: add_mono)

lemma sum_list_const:
  "(\<And>j. j \<in> set js \<Longrightarrow> f j = (c::nat)) \<Longrightarrow> sum_list (map f js) = c * length js"
  by (induction js) auto

lemma length_reorganizeRangeData_le: "length (reorganizeRangeData rangedata) \<le> 2016"
proof -
  have "sum_list (map (\<lambda>j. length (blockSpan rangedata j)) [0..<32]) \<le> 63 * length [0..<32]"
    by (rule sum_list_const_bound) (simp add: length_blockSpan)
  then show ?thesis
    by (simp add: reorganizeRangeData_def length_concat comp_def)
qed

lemma length_reorganizeRangeData_full:
  assumes "2110 \<le> length rangedata"
  shows "length (reorganizeRangeData rangedata) = 2016"
proof -
  have "sum_list (map (\<lambda>j. length (blockSpan rangedata j)) [0..<32]) = 63 * length [0..<32]"
    using assms by (intro sum_list_const) (auto simp: length_blockSpan)
  then show ?thesis
    by (simp add: reorganizeRangeData_def length_concat comp_def)
qed

lemma length_encodeDistanceData:
  "length (encodeDistanceData onlyrangedata) = length onlyrangedata div 3"
  by (simp add: encodeDistanceData_def)

lemma encodeDistanceData_groups:
  "g \<in> set (encodeDistanceData onlyrangedata) \<Longrightarrow> length g = 3"
  by (auto simp: encodeDistanceData_def)

lemma decodeSCIP_group: "length g = 3 \<Longrightarrow> \<exists>v. decodeSCIP g = Inr v"
  using fromParse_digbin by (simp add: decodeSCIP_def elemAt_def)

lemma decodeDistanceData_length:
  "decodeDistanceData gs = Inr ds \<Longrightarrow> length ds = length gs"
  by (induction gs arbitrary: ds) (auto split: sum.splits)

lemma decodeDistanceData_groups:
  "(\<And>g. g \<in> set gs \<Longrightarrow> length g = 3) \<Longrightarrow> \<exists>ds. decodeDistanceData gs = Inr ds"
proof (induction gs)
  case Nil
  show ?case by simp
next
  case (Cons g gs)
  from Cons.prems obtain v where "decodeSCIP g = Inr v"
    using decodeSCIP_group [of g] by auto
  moreover from Cons obtain ds where "decodeDistanceData gs = Inr ds" by auto
  ultimately show ?case by simp
qed

lemma length_convertToCoordinates [simp]:
  "length (convertToCoordinates ranges) = length ranges"
  by (simp add: convertToCoordinates_def)

lemma findStartIndices_append:
  "findStartIndices (p @ r) c =
     findStartIndices p c @ map (\<lambda>i. i + length p) (findStartIndices r c)"
proof -
  have "map (\<lambda>i. i + length p) [0..<length r] = [length p..<length r + length p]"
    by (rule map_add_upt)
  moreover have "[0..<length p + length r] = [0..<length p] @ [length p..<length p + length r]"
    by (rule upt_add_eq_append) simp
  ultimately have split:
    "[0..<length (p @ r)] = [0..<length p] @ map (\<lambda>i. i + length p) [0..<length r]"
    by (simp only: length_append add.commute)
  have 1: "filter (\<lambda>i. (p @ r) ! i = c) [0..<length p] = filter (\<lambda>i. p ! i = c) [0..<length p]"
    by (rule filter_cong) (simp_all add: nth_append)
  have 2: "filter (\<lambda>i. (p @ r) ! i = c) (map (\<lambda>i. i + length p) [0..<length r])
             = map (\<lambda>i. i + length p) (filter (\<lambda>i. r ! i = c) [0..<length r])"
    by (simp add: filter_map comp_def nth_append)
  have "findStartIndices (p @ r) c = filter (\<lambda>i. (p @ r) ! i = c) [0..<length (p @ r)]"
    by (simp only: findStartIndices_def)
  also have "\<dots> = filter (\<lambda>i. (p @ r) ! i = c) [0..<length p]
                   @ filter (\<lambda>i. (p @ r) ! i = c) (map (\<lambda>i. i + length p) [0..<length r])"
    by (simp only: split filter_append)
  also have "\<dots> = findStartIndices p c @ map (\<lambda>i. i + length p) (findStartIndices r c)"
    by (simp only: 1 2 findStartIndices_def)
  finally show ?thesis .
qed

lemma processLidarData_success:
  assumes len: "length rawData = EXPECTED_DATA_SIZE"
    and three: "3 \<le> length (findStartIndices rawData (rawData ! 12))"
    and third: "findStartIndices rawData (rawData ! 12) ! 2 \<le> 22"
  shows "\<exists>scan. processLidarData rawData = Inr scan \<and> length scan = 672"
proof -
  let ?k = "findStartIndices rawData (rawData ! 12) ! 2"
  let ?rangedata = "substring rawData (?k + 1) (length rawData - 1)"
  let ?groups = "encodeDistanceData (reorganizeRangeData ?rangedata)"
  have data: "substring rawData 0 EXPECTED_DATA_SIZE = rawData"
    using len by (simp add: substring_whole)
  have "2110 \<le> length ?rangedata"
    using len third by (simp add: length_substring EXPECTED_DATA_SIZE_def)
  then have groups: "length ?groups = 672"
    by (simp add: length_encodeDistanceData length_reorganizeRangeData_full)
  obtain ranges where dec: "decodeDistanceData ?groups = Inr ranges"
    using decodeDistanceData_groups [of ?groups] encodeDistanceData_groups by blast
  then have "length ranges = 672"
    using groups by (simp add: decodeDistanceData_length)
  moreover have "processLidarData rawData = Inr (convertToCoordinates ranges)"
    using len three dec by (simp add: processLidarData_def data Let_def)
  ultimately show ?thesis by simp
qed

lemma length_concat_replicate: "length (concat (replicate n xs)) = n * length xs"
  by (induction n) simp_all

lemma length_sampleHeader: "length sampleHeader = 23"
  by (simp add: sampleHeader_def str_def)

lemma length_sampleBody: "length sampleBody = 2111"
  by (simp add: sampleBody_def length_concat_replicate)

lemma length_sampleFrame: "length sampleFrame = 2134"
  by (simp add: sampleFrame_def length_sampleHeader length_sampleBody)

lemma sampleFrame_marker: "sampleFrame ! 12 = 10"
proof -
  have "sampleFrame ! 12 = sampleHeader ! 12"
    by (simp add: sampleFrame_def nth_append length_sampleHeader)
  also have "\<dots> = 10"
    by (simp add: sampleHeader_def str_def)
  finally show ?thesis .
qed

lemma sampleFrame_markers:
  "\<exists>rest. findStartIndices sampleFrame 10 = [12, 16, 22] @ rest"
proof -
  have h: "findStartIndices sampleHeader 10 = [12, 16, 22]"
    by code_simp
  have "findStartIndices sampleFrame 10 =
      [12, 16, 22] @ map (\<lambda>i. i + length sampleHeader) (findStartIndices sampleBody 10)"
    by (simp only: sampleFrame_def findStartIndices_append [of sampleHeader sampleBody 10] h)
  then show ?thesis ..
qed

lemma sampleFrame_scan:
  "\<exists>scan. processLidarData sampleFrame = Inr scan \<and> length scan = 672"
proof -
  from sampleFrame_markers obtain rest
    where m: "findStartIndices sampleFrame 10 = [12, 16, 22] @ rest" ..
  show ?thesis
    by (rule processLidarData_success)
       (simp_all add: length_sampleFrame EXPECTED_DATA_SIZE_def sampleFrame_marker m)
qed

lemma sampleAngle_less: "i < j \<Longrightarrow> sampleAngle i < sampleAngle j"
  by (simp add: sampleAngle_def TOTAL_POINTS_def divide_strict_right_mono)

lemma processLidarData_points:
  assumes "processLidarData rawData = Inr scan"
  shows "\<exists>ranges. scan = convertToCoordinates ranges"
  using assms by (auto simp: processLidarData_def Let_def split: if_splits sum.splits)

text \<open>
  Claim C1 asks for exactly 682 samples from a well-formed frame. Each of the 32 spans
  kept by \<open>reorganizeRangeData\<close> has \<open>64 - 1 = 63\<close> characters, so at most
  \<open>32 * 63 = 2016\<close> characters and \<open>2016 / 3 = 672\<close> groups are decoded:
  whenever \<open>processLidarData\<close> returns, it returns at most 672 samples. On the
  2134-character frame \<open>sampleFrame\<close> it returns exactly 672.
\<close>

theorem processLidarData_sample_count:
  assumes "processLidarData rawData = Inr scan"
  shows "length scan \<le> 672"
proof -
  from assms obtain rangedata ranges
    where dec: "decodeDistanceData (encodeDistanceData (reorganizeRangeData rangedata)) = Inr ranges"
      and scan: "scan = convertToCoordinates ranges"
    by (auto simp: processLidarData_def Let_def split: if_splits sum.splits)
  from dec have "length ranges = length (reorganizeRangeData rangedata) div 3"
    by (simp add: decodeDistanceData_length length_encodeDistanceData)
  also have "\<dots> \<le> 2016 div 3"
    by (rule div_le_mono) (rule length_reorganizeRangeData_le)
  finally show ?thesis by (simp add: scan)
qed

theorem processLidarData_sample_count_witness:
  "length sampleFrame = 2134 \<and>
   (\<exists>scan. processLidarData sampleFrame = Inr scan \<and> length scan = 672 \<and> length scan \<noteq> 682)"
proof -
  from sampleFrame_scan obtain scan
    where scan: "processLidarData sampleFrame = Inr scan" and len: "length scan = 672"
    by blast
  from processLidarData_sample_count [OF scan] len have "length scan \<noteq> 682" by simp
  with scan len length_sampleFrame show ?thesis by blast
qed

text \<open>
  Claim C8. In every decoded scan, sample \<open>i\<close> (0-based) has the angle
  \<open>(-120 + i * 240/682) * pi / 180\<close>, whatever the distances are; its coordinates
  are \<open>x = distance * cos angle\<close> and \<open>y = distance * sin angle\<close>; the angles
  increase strictly with the index; and the first angle is -120 degrees.
\<close>

theorem processLidarData_angles:
  assumes "processLidarData rawData = Inr scan" and "i < length scan"
  shows "angle (scan ! i) = (- 120 + real i * (240 / 682)) * pi / 180
       \<and> x (scan ! i) = scanPoint.distance (scan ! i) * cos (angle (scan ! i))
       \<and> y (scan ! i) = scanPoint.distance (scan ! i) * sin (angle (scan ! i))
       \<and> (\<forall>j. i < j \<and> j < length scan \<longrightarrow> angle (scan ! i) < angle (scan ! j))
       \<and> angle (scan ! 0) = - 120 * pi / 180"
proof -
  from assms(1) obtain ranges where scan: "scan = convertToCoordinates ranges"
    using processLidarData_points by blast
  have pt: "scan ! k = toPoint ranges k" if "k < length scan" for k
    using that by (simp add: scan convertToCoordinates_def)
  have a: "angle (scan ! k) = sampleAngle k" if "k < length scan" for k
    using that by (simp add: pt toPoint_def)
  have "angle (scan ! i) = (- 120 + real i * (240 / 682)) * pi / 180"
    using assms(2) by (simp add: a sampleAngle_def START_ANGLE_def TOTAL_POINTS_def)
  moreover have "x (scan ! i) = scanPoint.distance (scan ! i) * cos (angle (scan ! i))"
    and "y (scan ! i) = scanPoint.distance (scan ! i) * sin (angle (scan ! i))"
    using assms(2) by (simp_all add: pt toPoint_def)
  moreover have "\<forall>j. i < j \<and> j < length scan \<longrightarrow> angle (scan ! i) < angle (scan ! j)"
    using assms(2) by (simp add: a sampleAngle_less)
  moreover have "angle (scan ! 0) = - 120 * pi / 180"
  proof -
    from assms(2) have "0 < length scan" by (cases scan) simp_all
    then show ?thesis by (simp add: a sampleAngle_def START_ANGLE_def)
  qed
  ultimately show ?thesis by blast
qed

theorem processLidarData_angles_witness:
  "\<exists>scan. processLidarData sampleFrame = Inr scan \<and> 681 \<ge> length scan \<and> 1 < length scan
     \<and> angle (scan ! 0) = - 120 * pi / 180
     \<and> angle (scan ! 1) = (- 120 + 240 / 682) * pi / 180
     \<and> angle (scan ! 0) < angle (scan ! 1)"
proof -
  from sampleFrame_scan obtain scan
    where scan: "processLidarData sampleFrame = Inr scan" and len: "length scan = 672"
    by blast
  from len have 0: "0 < length scan" and 1: "1 < length scan" by simp_all
  from processLidarData_angles [OF scan 0] processLidarData_angles [OF scan 1] scan len
  show ?thesis by auto
qed

end
